theory Spec2Isabelle
  imports Complex_Main "HOL-Library.Multiset"
begin

section \<open>Python values\<close>

text \<open>
  The training script \<^verbatim>\<open>train.py\<close> is embedded function by function. Python floats
  are modelled as \<open>real\<close> (exact arithmetic, no NaN), Python integers as \<open>int\<close>, and
  counts that cannot be negative (epoch and batch indices, list lengths) as \<open>nat\<close>.
  An exception is a value of \<open>py_error\<close>; a function that may raise returns
  \<open>py_error + 'a\<close>. What a function prints, plots or saves is returned as a list of
  events, in the order of emission.
\<close>

datatype py_error =
  UnboundLocalError | ValueError | StopIteration | ZeroDivisionError | IndexError

text \<open>\<^verbatim>\<open>int(x)\<close> on a float truncates toward zero.\<close>

definition py_int :: "real \<Rightarrow> int" where
  "py_int x = (if 0 \<le> x then \<lfloor>x\<rfloor> else \<lceil>x\<rceil>)"

text \<open>\<^verbatim>\<open>range(n)\<close>: the indices \<open>0, ..., n - 1\<close>; empty when \<open>n \<le> 0\<close>.\<close>

definition py_range :: "int \<Rightarrow> nat list" where
  "py_range n = [0..<nat n]"

text \<open>\<^verbatim>\<open>next(it)\<close> on an iterator given by the list of what it still yields.\<close>

definition py_next :: "'a list \<Rightarrow> py_error + 'a" where
  "py_next it = (case it of [] \<Rightarrow> Inl StopIteration | b # rest \<Rightarrow> Inr b)"


section \<open>Configuration, samples and data loaders\<close>

text \<open>The fields of \<^verbatim>\<open>args_dict\<close> that \<^verbatim>\<open>train.py\<close> reads and that reach a decision
  or a collaborator modelled here.\<close>

record args =
  model :: string
  n_classes :: nat
  lr :: real
  factor :: real
  patience :: int
  batch :: int
  covid_percent :: real
  epochs :: int

text \<open>
  An image tensor is indexed channel, row, column; a dataset item is the triple
  \<^verbatim>\<open>(x, y, _)\<close> that the loops unpack. The random augmentation of
  \<^verbatim>\<open>train_transformation\<close> is not modelled: a sample stands for its transformed tensor.
\<close>

type_synonym image = "real list list list"
type_synonym sample = "image \<times> nat \<times> real"

text \<open>
  \<^verbatim>\<open>torch.utils.data.DataLoader(dataset, batch_size=..., shuffle=True)\<close>. Both loaders of
  the script shuffle and keep the default \<^verbatim>\<open>drop_last=False\<close>. The constructor refuses
  a batch size that is not positive with \<^verbatim>\<open>ValueError\<close>.
\<close>

record DataLoader =
  dataset :: "sample list"
  batch_size :: int

definition new_DataLoader :: "sample list \<Rightarrow> int \<Rightarrow> py_error + DataLoader" where
  "new_DataLoader ds bs =
     (if bs \<le> 0 then Inl ValueError else Inr \<lparr>dataset = ds, batch_size = bs\<rparr>)"

text \<open>Consecutive batches of \<open>n\<close> items; the last one holds what is left.\<close>

function batches :: "nat \<Rightarrow> 'a list \<Rightarrow> 'a list list" where
  "batches n xs = (if n = 0 \<or> xs = [] then [] else take n xs # batches n (drop n xs))"
  by pat_completeness auto
termination
  by (relation "measure (\<lambda>(n, xs). length xs)") auto

declare batches.simps [simp del]

text \<open>The default collate function: a list of items becomes the triple of columns.\<close>

definition collate :: "sample list \<Rightarrow> image list \<times> nat list \<times> real list" where
  "collate b = (map fst b, map (\<lambda>s. fst (snd s)) b, map (\<lambda>s. snd (snd s)) b)"


section \<open>Collaborators\<close>

text \<open>
  Everything \<^verbatim>\<open>train.py\<close> imports is a parameter: the two architectures of
  \<^verbatim>\<open>model_covid\<close>, the optimizer and the scheduler of torch, \<^verbatim>\<open>utils.resume\<close>,
  the two datasets built from \<^verbatim>\<open>data.preprocessSplit\<close>, the forward pass, the loss,
  the three calls \<^verbatim>\<open>zero_grad\<close>, \<^verbatim>\<open>backward\<close>, \<^verbatim>\<open>step\<close> taken together, and
  \<^verbatim>\<open>eval.valEpoch\<close> on the test loader, which returns
  \<^verbatim>\<open>(sensitivity_covid, accuracy)\<close>. Type \<open>'m\<close> is the state of the model and \<open>'o\<close>
  that of the optimizer together with its scheduler.

  The random number generator is a counter of the permutations drawn so far:
  \<open>shuffle c g\<close> is the permutation that the \<open>g\<close>-th iterator created in the run draws.
\<close>

record ('m, 'o) env =
  CovidNet :: "nat \<Rightarrow> 'm"
  ResNet :: "nat \<Rightarrow> 'm"
  Adam :: "'m \<Rightarrow> real \<Rightarrow> 'o"
  ReduceLROnPlateau :: "'o \<Rightarrow> real \<Rightarrow> int \<Rightarrow> 'o"
  resume :: "'m \<Rightarrow> 'o \<Rightarrow> real \<times> 'm \<times> 'o"
  train_non_covid :: "sample list"
  train_covid :: "sample list"
  shuffle :: "nat \<Rightarrow> sample list \<Rightarrow> sample list"
  forward :: "'m \<Rightarrow> image list \<Rightarrow> real list list"
  criterion :: "real list list \<Rightarrow> nat list \<Rightarrow> real"
  backward_step :: "'m \<Rightarrow> 'o \<Rightarrow> image list \<Rightarrow> nat list \<Rightarrow> 'm \<times> 'o"
  scheduler_step :: "'o \<Rightarrow> real \<Rightarrow> 'o"
  valEpoch :: "'m \<Rightarrow> real \<times> real"

text \<open>The mutable objects of a run: model, optimizer with scheduler, generator.\<close>

record ('m, 'o) world =
  net :: 'm
  optim :: 'o
  rng :: nat

text \<open>\<^verbatim>\<open>iter(dl)\<close>: a new iterator draws a new permutation of the whole dataset and
  yields it batch by batch.\<close>

definition iter_dl :: "('m, 'o) env \<Rightarrow> DataLoader \<Rightarrow> nat \<Rightarrow> sample list list \<times> nat" where
  "iter_dl c dl g = (batches (nat (batch_size dl)) (shuffle c g (dataset dl)), Suc g)"


section \<open>Running averages\<close>

text \<open>
  Modelled from the spec: \<^verbatim>\<open>utils.AverageMeter\<close> is not among the sources. The spec
  describes a running average, reset at epoch start and updated after every batch with a
  weighted moving average; \<open>update v n\<close> records the value \<open>v\<close> with weight \<open>n\<close>.
  The average is the weighted sum over the total weight, a division that raises
  \<^verbatim>\<open>ZeroDivisionError\<close> while the total weight is 0.
\<close>

record AverageMeter =
  am_val :: real
  am_avg :: real
  am_sum :: real
  am_count :: real

definition new_AverageMeter :: AverageMeter where
  "new_AverageMeter = \<lparr>am_val = 0, am_avg = 0, am_sum = 0, am_count = 0\<rparr>"

definition update :: "AverageMeter \<Rightarrow> real \<Rightarrow> nat \<Rightarrow> py_error + AverageMeter" where
  "update m v n =
     (let s = am_sum m + v * real n; k = am_count m + real n
      in if k = 0 then Inl ZeroDivisionError
         else Inr \<lparr>am_val = v, am_avg = s / k, am_sum = s, am_count = k\<rparr>)"


section \<open>Events\<close>

record ('m, 'o) checkpoint =
  ck_epoch :: nat
  ck_state_dict :: 'm
  ck_best_sensit :: real
  ck_optimizer :: 'o
  ck_valtrack :: int
  ck_curr_val :: real

datatype ('m, 'o) event =
    PrintModelSelected string
  | PrintStartTraining
  | ModelForward "image list" "nat list"
  | OptimizerStep
  | PrintTrain nat nat nat AverageMeter AverageMeter
  | Plot string string string nat real
  | ValEpoch real real
  | SchedulerStep real
  | PrintBest
  | SaveModel "('m, 'o) checkpoint"
  | PrintValidation real real int


section \<open>calculateDataLoaderTrain\<close>

definition covid_size :: "args \<Rightarrow> int" where
  "covid_size a = max (py_int (real_of_int (batch a) * covid_percent a)) 1"

definition calculateDataLoaderTrain ::
  "('m, 'o) env \<Rightarrow> args \<Rightarrow> py_error + DataLoader \<times> DataLoader" where
  "calculateDataLoaderTrain c a =
     (case new_DataLoader (train_non_covid c) (batch a - covid_size a) of
        Inl e \<Rightarrow> Inl e
      | Inr dl_non_covid \<Rightarrow>
          (case new_DataLoader (train_covid c) (covid_size a) of
             Inl e \<Rightarrow> Inl e
           | Inr dl_covid \<Rightarrow> Inr (dl_non_covid, dl_covid)))"


section \<open>trainEpoch\<close>

text \<open>\<^verbatim>\<open>torch.max(output, axis=1)[1]\<close>: per row, the index of a largest entry (the first
  one here).\<close>

fun argmax_from :: "nat \<Rightarrow> nat \<Rightarrow> real \<Rightarrow> real list \<Rightarrow> nat" where
  "argmax_from i best bv [] = best"
| "argmax_from i best bv (x # xs) =
     (if bv < x then argmax_from (Suc i) i x xs else argmax_from (Suc i) best bv xs)"

definition argmax :: "real list \<Rightarrow> nat" where
  "argmax row = (case row of [] \<Rightarrow> 0 | x # xs \<Rightarrow> argmax_from 1 0 x xs)"

text \<open>\<^verbatim>\<open>(max_indices == y_batch).sum().item()\<close>\<close>

definition count_equal :: "nat list \<Rightarrow> nat list \<Rightarrow> nat" where
  "count_equal ps ys = length (filter (\<lambda>(p, y). p = y) (zip ps ys))"

text \<open>
  The body of the loop over the majority loader, for the majority batch \<open>b_nc\<close> at index
  \<open>batch_idx\<close>. The weight handed to both meters is \<^verbatim>\<open>x_batch[0].size(0)\<close>: the size of
  the first dimension of the first image of the combined batch.
\<close>

definition train_batch ::
  "('m, 'o) env \<Rightarrow> DataLoader \<Rightarrow> nat \<Rightarrow> nat \<Rightarrow> nat \<Rightarrow> sample list \<Rightarrow>
   ('m, 'o) world \<times> AverageMeter \<times> AverageMeter \<Rightarrow>
   py_error + (('m, 'o) world \<times> AverageMeter \<times> AverageMeter) \<times> ('m, 'o) event list" where
  "train_batch c dl_covid epoch n_batches batch_idx b_nc st =
     (case st of (w, losses, accuracies) \<Rightarrow>
      (case collate b_nc of (x_batch_nc, y_batch_nc, w_nc) \<Rightarrow>
       (case iter_dl c dl_covid (rng w) of (it, g) \<Rightarrow>
        (case py_next it of
           Inl e \<Rightarrow> Inl e
         | Inr b_c \<Rightarrow>
            (case collate b_c of (x_batch_c, y_batch_c, w_c) \<Rightarrow>
              (let x_batch = x_batch_nc @ x_batch_c;
                   y_batch = y_batch_nc @ y_batch_c;
                   output = forward c (net w) x_batch;
                   train_loss = criterion c output y_batch
               in case x_batch of
                    [] \<Rightarrow> Inl IndexError
                  | x0 # xrest \<Rightarrow>
                     (case update losses train_loss (length x0) of
                        Inl e \<Rightarrow> Inl e
                      | Inr losses' \<Rightarrow>
                         (let max_indices = map argmax output
                          in if length max_indices = 0 then Inl ZeroDivisionError
                             else
                              (let train_acc = real (count_equal max_indices y_batch)
                                                 / real (length max_indices)
                               in case update accuracies train_acc (length x0) of
                                    Inl e \<Rightarrow> Inl e
                                  | Inr accuracies' \<Rightarrow>
                                     (case backward_step c (net w) (optim w) x_batch y_batch of
                                        (m', o') \<Rightarrow>
                                          Inr ((\<lparr>net = m', optim = o', rng = g\<rparr>,
                                                losses', accuracies'),
                                               [ModelForward x_batch y_batch, OptimizerStep,
                                                PrintTrain epoch batch_idx n_batches
                                                  losses' accuracies'])))))))))))"

text \<open>The loop itself, over what \<^verbatim>\<open>enumerate(dl_non_covid)\<close> yields.\<close>

fun train_batches ::
  "('m, 'o) env \<Rightarrow> DataLoader \<Rightarrow> nat \<Rightarrow> nat \<Rightarrow> (nat \<times> sample list) list \<Rightarrow>
   ('m, 'o) world \<times> AverageMeter \<times> AverageMeter \<Rightarrow>
   py_error + (('m, 'o) world \<times> AverageMeter \<times> AverageMeter) \<times> ('m, 'o) event list" where
  "train_batches c dl_covid epoch n_batches [] st = Inr (st, [])"
| "train_batches c dl_covid epoch n_batches ((batch_idx, b_nc) # rest) st =
     (case train_batch c dl_covid epoch n_batches batch_idx b_nc st of
        Inl e \<Rightarrow> Inl e
      | Inr (st', evs) \<Rightarrow>
          (case train_batches c dl_covid epoch n_batches rest st' of
             Inl e \<Rightarrow> Inl e
           | Inr (st'', evs') \<Rightarrow> Inr (st'', evs @ evs')))"

definition trainEpoch ::
  "('m, 'o) env \<Rightarrow> DataLoader \<Rightarrow> DataLoader \<Rightarrow> nat \<Rightarrow> ('m, 'o) world \<Rightarrow>
   py_error + ('m, 'o) world \<times> ('m, 'o) event list" where
  "trainEpoch c dl_non_covid dl_covid epoch w =
     (case iter_dl c dl_non_covid (rng w) of (it, g) \<Rightarrow>
       (case train_batches c dl_covid epoch (length it) (enumerate 0 it)
               (w\<lparr>rng := g\<rparr>, new_AverageMeter, new_AverageMeter) of
          Inl e \<Rightarrow> Inl e
        | Inr ((w', losses, accuracies), evs) \<Rightarrow>
            Inr (w', evs @ [Plot ''loss'' ''train'' ''Cross Entropy Loss'' epoch (am_avg losses),
                            Plot ''Acc'' ''train'' ''Accuracy'' epoch (am_avg accuracies)])))"


section \<open>train_model\<close>

text \<open>The local variables of \<^verbatim>\<open>train_model\<close> that the epoch loop reads and writes.\<close>

record ('m, 'o) locals =
  objects :: "('m, 'o) world"
  best_sensit :: real
  pat_track :: int

text \<open>One iteration of the epoch loop.\<close>

definition epoch_body ::
  "('m, 'o) env \<Rightarrow> DataLoader \<Rightarrow> DataLoader \<Rightarrow> nat \<Rightarrow> ('m, 'o) locals \<Rightarrow>
   py_error + ('m, 'o) locals \<times> ('m, 'o) event list" where
  "epoch_body c dl_non_covid dl_covid epoch s =
     (case trainEpoch c dl_non_covid dl_covid epoch (objects s) of
        Inl e \<Rightarrow> Inl e
      | Inr (w, train_evs) \<Rightarrow>
         (case valEpoch c (net w) of (sensitivity_covid, accuracy) \<Rightarrow>
           (let w' = w\<lparr>optim := scheduler_step c (optim w) accuracy\<rparr>;
                (best, save_evs) =
                  (if accuracy \<ge> 0.80 then
                     (let is_best = sensitivity_covid > best_sensit s
                      in if is_best then
                           (let best' = max sensitivity_covid (best_sensit s)
                            in (best',
                                [PrintBest,
                                 SaveModel \<lparr>ck_epoch = epoch + 1, ck_state_dict = net w',
                                            ck_best_sensit = best', ck_optimizer = optim w',
                                            ck_valtrack = pat_track s,
                                            ck_curr_val = accuracy\<rparr>]))
                         else (best_sensit s, []))
                   else (best_sensit s, []))
            in Inr (s\<lparr>objects := w', best_sensit := best\<rparr>,
                    train_evs
                    @ [ValEpoch sensitivity_covid accuracy, SchedulerStep accuracy]
                    @ save_evs
                    @ [PrintValidation best accuracy (pat_track s),
                       Plot ''Sensitivity'' ''test'' ''sensitivity covid'' epoch sensitivity_covid,
                       Plot ''Accuracy'' ''test'' ''Accuracy'' epoch accuracy]))))"

fun train_loop ::
  "('m, 'o) env \<Rightarrow> DataLoader \<Rightarrow> DataLoader \<Rightarrow> nat list \<Rightarrow> ('m, 'o) locals \<Rightarrow>
   py_error + ('m, 'o) locals \<times> ('m, 'o) event list" where
  "train_loop c dl_non_covid dl_covid [] s = Inr (s, [])"
| "train_loop c dl_non_covid dl_covid (epoch # rest) s =
     (case epoch_body c dl_non_covid dl_covid epoch s of
        Inl e \<Rightarrow> Inl e
      | Inr (s', evs) \<Rightarrow>
          (case train_loop c dl_non_covid dl_covid rest s' of
             Inl e \<Rightarrow> Inl e
           | Inr (s'', evs') \<Rightarrow> Inr (s'', evs @ evs')))"

text \<open>The model selection: an \<^verbatim>\<open>if\<close>/\<^verbatim>\<open>elif\<close> without \<^verbatim>\<open>else\<close>, so the local
  variable \<^verbatim>\<open>model\<close> may stay unbound.\<close>

definition select_model :: "('m, 'o) env \<Rightarrow> args \<Rightarrow> 'm option" where
  "select_model c a =
     (if model a = ''covidnet'' then Some (CovidNet c (n_classes a))
      else if model a = ''resnet'' then Some (ResNet c (n_classes a))
      else None)"

definition train_model ::
  "('m, 'o) env \<Rightarrow> args \<Rightarrow> nat \<Rightarrow> py_error + ('m, 'o) locals \<times> ('m, 'o) event list" where
  "train_model c a g =
     (case select_model c a of
        None \<Rightarrow> Inl UnboundLocalError
      | Some m0 \<Rightarrow>
         (let optimizer = Adam c m0 (lr a)
          in case resume c m0 optimizer of (best_sensit0, m, optimizer') \<Rightarrow>
              (let scheduler = ReduceLROnPlateau c optimizer' (factor a) (patience a)
               in case calculateDataLoaderTrain c a of
                    Inl e \<Rightarrow> Inl e
                  | Inr (dl_non_covid, dl_covid) \<Rightarrow>
                     (case train_loop c dl_non_covid dl_covid (py_range (epochs a))
                             \<lparr>objects = \<lparr>net = m, optim = scheduler, rng = g\<rparr>,
                              best_sensit = best_sensit0, pat_track = 0\<rparr> of
                        Inl e \<Rightarrow> Inl e
                      | Inr (s, evs) \<Rightarrow>
                          Inr (s, [PrintModelSelected (model a), PrintStartTraining] @ evs)))))"


section \<open>Observations on a run\<close>

text \<open>What the theorems read off a result: whether the call returned, the events it
  emitted, the checkpoints among them, and the batches handed to the model.\<close>

definition succeeded :: "'e + 'a \<Rightarrow> bool" where
  "succeeded r = (case r of Inl e \<Rightarrow> False | Inr x \<Rightarrow> True)"

definition result_events :: "'e + 's \<times> 'ev list \<Rightarrow> 'ev list" where
  "result_events r = (case r of Inl e \<Rightarrow> [] | Inr (s, evs) \<Rightarrow> evs)"

definition result_state :: "'e + 's \<times> 'ev list \<Rightarrow> 's option" where
  "result_state r = (case r of Inl e \<Rightarrow> None | Inr (s, evs) \<Rightarrow> Some s)"

definition result_best :: "'e + ('m, 'o) locals \<times> 'ev list \<Rightarrow> real option" where
  "result_best r = (case r of Inl e \<Rightarrow> None | Inr (s, evs) \<Rightarrow> Some (best_sensit s))"

fun is_train_event :: "('m, 'o) event \<Rightarrow> bool" where
  "is_train_event (ModelForward x y) = True"
| "is_train_event OptimizerStep = True"
| "is_train_event (PrintTrain e i n l a) = True"
| "is_train_event (Plot var series title e v) = (series = ''train'')"
| "is_train_event ev = False"

fun saved_checkpoints :: "('m, 'o) event list \<Rightarrow> ('m, 'o) checkpoint list" where
  "saved_checkpoints [] = []"
| "saved_checkpoints (SaveModel ck # evs) = ck # saved_checkpoints evs"
| "saved_checkpoints (ev # evs) = saved_checkpoints evs"

fun printed_patience :: "('m, 'o) event list \<Rightarrow> int list" where
  "printed_patience [] = []"
| "printed_patience (PrintValidation b acc p # evs) = p # printed_patience evs"
| "printed_patience (ev # evs) = printed_patience evs"

fun forward_batches :: "('m, 'o) event list \<Rightarrow> image list list" where
  "forward_batches [] = []"
| "forward_batches (ModelForward x y # evs) = x # forward_batches evs"
| "forward_batches (ev # evs) = forward_batches evs"

definition combined_sizes :: "('m, 'o) event list \<Rightarrow> nat list" where
  "combined_sizes evs = map length (forward_batches evs)"

text \<open>The sample counts that the loss meter and the accuracy meter have accumulated at
  each progress line.\<close>

fun printed_counts :: "('m, 'o) event list \<Rightarrow> (real \<times> real) list" where
  "printed_counts [] = []"
| "printed_counts (PrintTrain e i n l a # evs) = (am_count l, am_count a) # printed_counts evs"
| "printed_counts (ev # evs) = printed_counts evs"

text \<open>The events of one iteration of the epoch loop, in order: the training events, the
  validation pass, the scheduler step on the validation accuracy, the checkpoint (or
  nothing), the summary line and the two validation plots.\<close>

definition epoch_trace :: "nat \<Rightarrow> ('m, 'o) event list \<Rightarrow> bool" where
  "epoch_trace e t =
     (\<exists>tr sens acc sv b p.
        t = tr @ [ValEpoch sens acc, SchedulerStep acc] @ sv
              @ [PrintValidation b acc p,
                 Plot ''Sensitivity'' ''test'' ''sensitivity covid'' e sens,
                 Plot ''Accuracy'' ''test'' ''Accuracy'' e acc]
        \<and> list_all is_train_event tr
        \<and> (sv = [] \<or> (\<exists>ck. sv = [PrintBest, SaveModel ck])))"

text \<open>A result with the patience fields set to \<open>p\<close>: the value saved under
  \<^verbatim>\<open>valtrack\<close>, the one printed in the summary line, and the variable itself.\<close>

fun with_patience_event :: "int \<Rightarrow> ('m, 'o) event \<Rightarrow> ('m, 'o) event" where
  "with_patience_event p (SaveModel ck) = SaveModel (ck\<lparr>ck_valtrack := p\<rparr>)"
| "with_patience_event p (PrintValidation b acc q) = PrintValidation b acc p"
| "with_patience_event p ev = ev"

definition with_patience ::
  "int \<Rightarrow> py_error + ('m, 'o) locals \<times> ('m, 'o) event list \<Rightarrow>
   py_error + ('m, 'o) locals \<times> ('m, 'o) event list" where
  "with_patience p r =
     (case r of Inl e \<Rightarrow> Inl e
      | Inr (s, evs) \<Rightarrow> Inr (s\<lparr>pat_track := p\<rparr>, map (with_patience_event p) evs))"


text \<open>What a shuffle is: every permutation drawn rearranges the dataset it is given.\<close>

definition shuffle_permutes :: "('m, 'o) env \<Rightarrow> bool" where
  "shuffle_permutes c = (\<forall>g xs. mset (shuffle c g xs) = mset xs)"



section \<open>A concrete run\<close>

text \<open>Ten majority and four minority samples, images of three channels of one pixel,
  batch size 10 with minority fraction 0.3, two epochs. The model state counts the
  optimizer steps; validation reports accuracy 0.85 and a sensitivity that grows with
  the steps.\<close>

definition img0 :: image where
  "img0 = [[[0]], [[0]], [[0]]]"

definition env0 :: "(nat, nat) env" where
  "env0 = \<lparr>CovidNet = (\<lambda>n. 0), ResNet = (\<lambda>n. 1), Adam = (\<lambda>m l. 0),
            ReduceLROnPlateau = (\<lambda>opt f p. opt), resume = (\<lambda>m opt. (0, m, opt)),
            train_non_covid = map (\<lambda>i. (img0, 0, real i)) [0..<10],
            train_covid = map (\<lambda>i. (img0, 1, real i)) [10..<14],
            shuffle = (\<lambda>g xs. rotate g xs),
            forward = (\<lambda>m xs. map (\<lambda>x. [0, 1]) xs),
            criterion = (\<lambda>out ys. 1 / 2),
            backward_step = (\<lambda>m opt xs ys. (Suc m, Suc opt)),
            scheduler_step = (\<lambda>opt acc. opt),
            valEpoch = (\<lambda>m. (real m / 10, 17 / 20))\<rparr>"

definition args0 :: args where
  "args0 = \<lparr>model = ''covidnet'', n_classes = 2, lr = 1 / 1000, factor = 1 / 10,
             patience = 5, batch = 10, covid_percent = 3 / 10, epochs = 2\<rparr>"

definition dl_non_covid0 :: DataLoader where
  "dl_non_covid0 = \<lparr>dataset = train_non_covid env0, batch_size = 7\<rparr>"

definition dl_covid0 :: DataLoader where
  "dl_covid0 = \<lparr>dataset = train_covid env0, batch_size = 3\<rparr>"

definition locals0 :: "(nat, nat) locals" where
  "locals0 = \<lparr>objects = \<lparr>net = 0, optim = 0, rng = 0\<rparr>, best_sensit = 0, pat_track = 0\<rparr>"


text \<open>The same collaborators with a validation oracle that answers out of range.\<close>

definition env_out_of_range :: "(nat, nat) env" where
  "env_out_of_range = env0\<lparr>valEpoch := (\<lambda>m. (2, 3 / 2))\<rparr>"


section \<open>Evaluating the concrete run\<close>

lemma succeededE:
  assumes "succeeded r"
  obtains s evs where "r = Inr (s, evs)"
  using assms by (cases r) (auto simp: succeeded_def)

lemma result_stateD: "result_state r = Some s \<Longrightarrow> \<exists>evs. r = Inr (s, evs)"
  by (auto simp: result_state_def split: sum.splits)

lemma trainEpoch0:
  "result_state (trainEpoch env0 dl_non_covid0 dl_covid0 0 (objects locals0))
     = Some \<lparr>net = 2, optim = 2, rng = 3\<rparr>"
  by code_simp

lemma trainEpoch_out_of_range:
  "result_state (trainEpoch env_out_of_range dl_non_covid0 dl_covid0 0 (objects locals0))
     = Some \<lparr>net = 2, optim = 2, rng = 3\<rparr>"
  by code_simp

lemma train_model0: "succeeded (train_model env0 args0 0)"
  by code_simp

lemma train_loop0: "succeeded (train_loop env0 dl_non_covid0 dl_covid0 [0..<2] locals0)"
  by code_simp


section \<open>The events of a training epoch\<close>

lemma train_batch_events:
  assumes "train_batch c dc e n i b st = Inr (st', evs)"
  shows "\<exists>x y l a. evs = [ModelForward x y, OptimizerStep, PrintTrain e i n l a]"
  using assms
  by (auto simp: train_batch_def Let_def split: prod.splits sum.splits list.splits if_splits)

lemma train_batches_events:
  "train_batches c dc e n bs st = Inr (st', evs) \<Longrightarrow> list_all is_train_event evs"
proof (induction bs arbitrary: st st' evs)
  case Nil
  then show ?case by simp
next
  case (Cons p bs)
  obtain i b where p: "p = (i, b)" by (cases p)
  from Cons.prems obtain st1 evs1 evs2 where
    1: "train_batch c dc e n i b st = Inr (st1, evs1)" and
    2: "train_batches c dc e n bs st1 = Inr (st', evs2)" and
    3: "evs = evs1 @ evs2"
    by (auto simp: p split: sum.splits prod.splits)
  from train_batch_events[OF 1] have "list_all is_train_event evs1" by auto
  with Cons.IH[OF 2] 3 show ?case by simp
qed

lemma trainEpoch_events:
  assumes "trainEpoch c dn dc e w = Inr (w', evs)"
  shows "list_all is_train_event evs"
  using assms
  by (auto simp: trainEpoch_def split: prod.splits sum.splits dest: train_batches_events)

lemma train_events_no_save:
  "list_all is_train_event evs \<Longrightarrow> saved_checkpoints evs = []"
  by (induction evs rule: saved_checkpoints.induct) auto

lemma saved_checkpoints_append:
  "saved_checkpoints (xs @ ys) = saved_checkpoints xs @ saved_checkpoints ys"
  by (induction xs rule: saved_checkpoints.induct) auto


section \<open>The epoch loop\<close>

lemma epoch_body_Inr:
  assumes "trainEpoch c dn dc e (objects s) = Inr (w, tevs)"
    and "valEpoch c (net w) = (sens, acc)"
  shows "epoch_body c dn dc e s =
    Inr (s\<lparr>objects := w\<lparr>optim := scheduler_step c (optim w) acc\<rparr>,
           best_sensit := (if acc \<ge> 0.80 \<and> sens > best_sensit s then sens else best_sensit s)\<rparr>,
         tevs @ [ValEpoch sens acc, SchedulerStep acc]
         @ (if acc \<ge> 0.80 \<and> sens > best_sensit s
            then [PrintBest,
                  SaveModel \<lparr>ck_epoch = e + 1, ck_state_dict = net w, ck_best_sensit = sens,
                             ck_optimizer = scheduler_step c (optim w) acc,
                             ck_valtrack = pat_track s, ck_curr_val = acc\<rparr>]
            else [])
         @ [PrintValidation (if acc \<ge> 0.80 \<and> sens > best_sensit s then sens else best_sensit s)
              acc (pat_track s),
            Plot ''Sensitivity'' ''test'' ''sensitivity covid'' e sens,
            Plot ''Accuracy'' ''test'' ''Accuracy'' e acc])"
  using assms by (simp add: epoch_body_def Let_def max_def)

lemma epoch_body_InrD:
  assumes "epoch_body c dn dc e s = Inr (s', evs)"
  shows "\<exists>w tevs sens acc. trainEpoch c dn dc e (objects s) = Inr (w, tevs)
           \<and> valEpoch c (net w) = (sens, acc)"
  using assms by (auto simp: epoch_body_def split: sum.splits prod.splits)

lemma train_loop_append:
  "train_loop c dn dc (es @ es') s =
     (case train_loop c dn dc es s of
        Inl e \<Rightarrow> Inl e
      | Inr (s', evs) \<Rightarrow>
          (case train_loop c dn dc es' s' of
             Inl e \<Rightarrow> Inl e
           | Inr (s'', evs') \<Rightarrow> Inr (s'', evs @ evs')))"
  by (induction es arbitrary: s) (auto split: sum.splits prod.splits)

lemma train_loop_snoc:
  assumes "train_loop c dn dc es s0 = Inr (s, evs0)"
    and "epoch_body c dn dc e s = Inr (s', evs)"
  shows "train_loop c dn dc (es @ [e]) s0 = Inr (s', evs0 @ evs)"
  using assms by (simp add: train_loop_append)

lemma epoch_body_mono:
  assumes "epoch_body c dn dc e s = Inr (s', evs)"
  shows "best_sensit s \<le> best_sensit s'"
proof -
  from epoch_body_InrD[OF assms] obtain w tevs sens acc where
    h: "trainEpoch c dn dc e (objects s) = Inr (w, tevs)" "valEpoch c (net w) = (sens, acc)"
    by blast
  show ?thesis using assms by (simp add: epoch_body_Inr[OF h] split: if_splits) auto
qed

lemma train_loop_mono:
  "train_loop c dn dc es s = Inr (s', evs) \<Longrightarrow> best_sensit s \<le> best_sensit s'"
proof (induction es arbitrary: s s' evs)
  case Nil
  then show ?case by simp
next
  case (Cons e es)
  from Cons.prems obtain s1 evs1 evs2 where
    1: "epoch_body c dn dc e s = Inr (s1, evs1)" and
    2: "train_loop c dn dc es s1 = Inr (s', evs2)"
    by (auto split: sum.splits prod.splits)
  from epoch_body_mono[OF 1] Cons.IH[OF 2] show ?case by simp
qed

lemma train_loop_prefix:
  assumes "train_loop c dn dc (es @ es') s = Inr (s'', evs'')"
  shows "\<exists>s' evs evs'. train_loop c dn dc es s = Inr (s', evs)
            \<and> train_loop c dn dc es' s' = Inr (s'', evs') \<and> evs'' = evs @ evs'"
  using assms by (auto simp: train_loop_append split: sum.splits prod.splits)

lemma upt_split: "k \<le> n \<Longrightarrow> [0..<n] = [0..<k] @ [k..<n]"
  by (metis le0 upt_add_eq_append le_add_diff_inverse)


section \<open>The checkpoint policy\<close>

text \<open>
  C1. Let \<open>s\<close> be the state of the loop before epoch \<open>e\<close>, and let the validation pass of
  epoch \<open>e\<close> return sensitivity \<open>sens\<close> and accuracy \<open>acc\<close>. Then the epoch saves a
  checkpoint if and only if \<open>acc \<ge> 0.80\<close> and \<open>sens\<close> is strictly greater than
  \<open>best_sensit\<close> before the epoch; in every other case nothing is saved and
  \<open>best_sensit\<close> is unchanged.
\<close>

theorem checkpoint_iff_qualifying_epoch:
  assumes "train_loop c dn dc [0..<e] s0 = Inr (s, evs0)"
    and "trainEpoch c dn dc e (objects s) = Inr (w, tevs)"
    and "valEpoch c (net w) = (sens, acc)"
  shows "\<exists>s' evs.
           epoch_body c dn dc e s = Inr (s', evs)
         \<and> train_loop c dn dc [0..<Suc e] s0 = Inr (s', evs0 @ evs)
         \<and> (saved_checkpoints evs \<noteq> [] \<longleftrightarrow> acc \<ge> 0.80 \<and> sens > best_sensit s)
         \<and> (\<not> (acc \<ge> 0.80 \<and> sens > best_sensit s) \<longrightarrow>
               saved_checkpoints evs = [] \<and> best_sensit s' = best_sensit s)"
proof -
  note body = epoch_body_Inr[OF assms(2,3)]
  have ns: "saved_checkpoints tevs = []"
    using trainEpoch_events[OF assms(2)] by (rule train_events_no_save)
  show ?thesis
    using train_loop_snoc[OF assms(1) body] ns
    by (auto simp: body saved_checkpoints_append)
qed

theorem checkpoint_iff_qualifying_epoch_witness:
  "\<exists>s' evs. epoch_body env0 dl_non_covid0 dl_covid0 0 locals0 = Inr (s', evs)
     \<and> train_loop env0 dl_non_covid0 dl_covid0 [0..<Suc 0] locals0 = Inr (s', evs)
     \<and> saved_checkpoints evs \<noteq> []"
proof -
  have h1: "train_loop env0 dl_non_covid0 dl_covid0 [0..<0] locals0 = Inr (locals0, [])"
    by simp
  from result_stateD[OF trainEpoch0] obtain tevs where
    h2: "trainEpoch env0 dl_non_covid0 dl_covid0 0 (objects locals0)
           = Inr (\<lparr>net = 2, optim = 2, rng = 3\<rparr>, tevs)" by blast
  have h3: "valEpoch env0 (net \<lparr>net = 2::nat, optim = 2::nat, rng = 3\<rparr>) = (1 / 5, 17 / 20)"
    by (simp add: env0_def)
  have q: "(17 / 20 :: real) \<ge> 0.80 \<and> (1 / 5 :: real) > best_sensit locals0"
    by (simp add: locals0_def)
  from checkpoint_iff_qualifying_epoch[OF h1 h2 h3] q show ?thesis by auto
qed

text \<open>
  C2. In a run of \<open>n\<close> epochs, \<open>best_sensit\<close> after \<open>e1\<close> epochs is at most its value
  after \<open>e2\<close> epochs whenever \<open>e1 \<le> e2 \<le> n\<close>; and in every epoch it changes only when
  the accuracy is at least 0.80 and the sensitivity strictly exceeds the tracked value,
  in which case it becomes that sensitivity.
\<close>

theorem best_sensit_monotone:
  assumes run: "train_loop c dn dc [0..<n] s0 = Inr (sn, evsn)"
  shows "(\<forall>e1 e2. e1 \<le> e2 \<and> e2 \<le> n \<longrightarrow>
            (\<exists>s1 evs1 s2 evs2.
               train_loop c dn dc [0..<e1] s0 = Inr (s1, evs1)
             \<and> train_loop c dn dc [0..<e2] s0 = Inr (s2, evs2)
             \<and> best_sensit s1 \<le> best_sensit s2))
       \<and> (\<forall>e<n. \<exists>s evs0 w tevs sens acc s' evs.
               train_loop c dn dc [0..<e] s0 = Inr (s, evs0)
             \<and> trainEpoch c dn dc e (objects s) = Inr (w, tevs)
             \<and> valEpoch c (net w) = (sens, acc)
             \<and> train_loop c dn dc [0..<Suc e] s0 = Inr (s', evs)
             \<and> (best_sensit s' \<noteq> best_sensit s \<longrightarrow> acc \<ge> 0.80 \<and> sens > best_sensit s)
             \<and> (acc \<ge> 0.80 \<and> sens > best_sensit s \<longrightarrow> best_sensit s' = sens))"
proof (intro conjI allI impI)
  fix e1 e2 assume le: "e1 \<le> e2 \<and> e2 \<le> n"
  have "[0..<n] = [0..<e2] @ [e2..<n]" using le by (simp add: upt_split)
  with run train_loop_prefix obtain s2 evs2 where
    2: "train_loop c dn dc [0..<e2] s0 = Inr (s2, evs2)" by metis
  have "[0..<e2] = [0..<e1] @ [e1..<e2]" using le by (simp add: upt_split)
  with 2 train_loop_prefix[of c dn dc "[0..<e1]" "[e1..<e2]" s0 s2 evs2] obtain s1 evs1 evs' where
    1: "train_loop c dn dc [0..<e1] s0 = Inr (s1, evs1)" and
    3: "train_loop c dn dc [e1..<e2] s1 = Inr (s2, evs')" by auto
  from train_loop_mono[OF 3] 1 2
  show "\<exists>s1 evs1 s2 evs2.
               train_loop c dn dc [0..<e1] s0 = Inr (s1, evs1)
             \<and> train_loop c dn dc [0..<e2] s0 = Inr (s2, evs2)
             \<and> best_sensit s1 \<le> best_sensit s2" by blast
next
  fix e assume lt: "e < n"
  have "[0..<n] = [0..<Suc e] @ [Suc e..<n]" using lt upt_split[of "Suc e" n] by linarith
  with run train_loop_prefix obtain s' evs where
    2: "train_loop c dn dc [0..<Suc e] s0 = Inr (s', evs)" by metis
  then have "train_loop c dn dc ([0..<e] @ [e]) s0 = Inr (s', evs)" by simp
  from train_loop_prefix[OF this] obtain s evs0 evs1 where
    1: "train_loop c dn dc [0..<e] s0 = Inr (s, evs0)" and
    3: "train_loop c dn dc [e] s = Inr (s', evs1)" by blast
  from 3 have b: "epoch_body c dn dc e s = Inr (s', evs1)"
    by (auto split: sum.splits prod.splits)
  from epoch_body_InrD[OF b] obtain w tevs sens acc where
    h: "trainEpoch c dn dc e (objects s) = Inr (w, tevs)" "valEpoch c (net w) = (sens, acc)"
    by blast
  have "(best_sensit s' \<noteq> best_sensit s \<longrightarrow> acc \<ge> 0.80 \<and> sens > best_sensit s)
      \<and> (acc \<ge> 0.80 \<and> sens > best_sensit s \<longrightarrow> best_sensit s' = sens)"
    using b by (simp add: epoch_body_Inr[OF h] split: if_splits) auto
  with 1 2 h
  show "\<exists>s evs0 w tevs sens acc s' evs.
               train_loop c dn dc [0..<e] s0 = Inr (s, evs0)
             \<and> trainEpoch c dn dc e (objects s) = Inr (w, tevs)
             \<and> valEpoch c (net w) = (sens, acc)
             \<and> train_loop c dn dc [0..<Suc e] s0 = Inr (s', evs)
             \<and> (best_sensit s' \<noteq> best_sensit s \<longrightarrow> acc \<ge> 0.80 \<and> sens > best_sensit s)
             \<and> (acc \<ge> 0.80 \<and> sens > best_sensit s \<longrightarrow> best_sensit s' = sens)"
    by blast
qed

theorem best_sensit_monotone_witness:
  "\<exists>s1 evs1 s2 evs2.
      train_loop env0 dl_non_covid0 dl_covid0 [0..<1] locals0 = Inr (s1, evs1)
    \<and> train_loop env0 dl_non_covid0 dl_covid0 [0..<2] locals0 = Inr (s2, evs2)
    \<and> best_sensit s1 \<le> best_sensit s2"
proof -
  from train_loop0 obtain sn evsn where
    run: "train_loop env0 dl_non_covid0 dl_covid0 [0..<2] locals0 = Inr (sn, evsn)"
    by (rule succeededE)
  from best_sensit_monotone[OF run] have
    "\<forall>e1 e2. e1 \<le> e2 \<and> e2 \<le> 2 \<longrightarrow>
            (\<exists>s1 evs1 s2 evs2.
               train_loop env0 dl_non_covid0 dl_covid0 [0..<e1] locals0 = Inr (s1, evs1)
             \<and> train_loop env0 dl_non_covid0 dl_covid0 [0..<e2] locals0 = Inr (s2, evs2)
             \<and> best_sensit s1 \<le> best_sensit s2)" by blast
  from this[rule_format, of 1 2] show ?thesis by simp
qed

text \<open>
  C8, as the spec states it: a validation result outside \<open>[0, 1]\<close> is rejected instead
  of being compared and stored. The loop has no such check. With an oracle that answers
  sensitivity 2 and accuracy 1.5, the epoch returns normally, \<open>best_sensit\<close> becomes 2
  and a checkpoint with that value is saved.
\<close>

theorem out_of_range_ratcheted:
  "valEpoch env_out_of_range 2 = (2, 3 / 2)
   \<and> result_best (epoch_body env_out_of_range dl_non_covid0 dl_covid0 0 locals0) = Some 2
   \<and> map ck_best_sensit (saved_checkpoints (result_events
        (epoch_body env_out_of_range dl_non_covid0 dl_covid0 0 locals0))) = [2]"
  by code_simp

text \<open>
  C8, amended: the loop applies the checkpoint policy to a validation result outside
  \<open>[0, 1]\<close> exactly as to any other. The epoch does not raise; when the accuracy is at
  least 0.80 and the sensitivity exceeds \<open>best_sensit\<close>, the out-of-range sensitivity
  becomes \<open>best_sensit\<close> and is saved with the out-of-range accuracy; otherwise nothing
  changes.
\<close>

theorem out_of_range_not_rejected:
  assumes "trainEpoch c dn dc e (objects s) = Inr (w, tevs)"
    and "valEpoch c (net w) = (sens, acc)"
    and "sens < 0 \<or> 1 < sens \<or> acc < 0 \<or> 1 < acc"
  shows "\<exists>s' evs.
           epoch_body c dn dc e s = Inr (s', evs)
         \<and> (acc \<ge> 0.80 \<and> sens > best_sensit s \<longrightarrow>
              best_sensit s' = sens
              \<and> (\<exists>ck. saved_checkpoints evs = [ck] \<and> ck_best_sensit ck = sens
                       \<and> ck_curr_val ck = acc))
         \<and> (\<not> (acc \<ge> 0.80 \<and> sens > best_sensit s) \<longrightarrow>
              best_sensit s' = best_sensit s \<and> saved_checkpoints evs = [])"
proof -
  note body = epoch_body_Inr[OF assms(1,2)]
  have ns: "saved_checkpoints tevs = []"
    using trainEpoch_events[OF assms(1)] by (rule train_events_no_save)
  show ?thesis using ns by (auto simp: body saved_checkpoints_append)
qed

theorem out_of_range_not_rejected_witness:
  "\<exists>s' evs. epoch_body env_out_of_range dl_non_covid0 dl_covid0 0 locals0 = Inr (s', evs)
      \<and> best_sensit s' = 2
      \<and> (\<exists>ck. saved_checkpoints evs = [ck] \<and> ck_best_sensit ck = 2 \<and> ck_curr_val ck = 3 / 2)"
proof -
  from result_stateD[OF trainEpoch_out_of_range] obtain tevs where
    h1: "trainEpoch env_out_of_range dl_non_covid0 dl_covid0 0 (objects locals0)
           = Inr (\<lparr>net = 2, optim = 2, rng = 3\<rparr>, tevs)" by blast
  have h2: "valEpoch env_out_of_range (net \<lparr>net = 2::nat, optim = 2::nat, rng = 3\<rparr>)
              = (2, 3 / 2)"
    by (simp add: env_out_of_range_def)
  have h3: "(2::real) < 0 \<or> 1 < (2::real) \<or> (3 / 2 :: real) < 0 \<or> 1 < (3 / 2 :: real)"
    by simp
  have q: "(3 / 2 :: real) \<ge> 0.80 \<and> (2 :: real) > best_sensit locals0"
    by (simp add: locals0_def)
  from out_of_range_not_rejected[OF h1 h2 h3] q show ?thesis by auto
qed


section \<open>The patience counter\<close>

lemma with_patience_train_events:
  "list_all is_train_event evs \<Longrightarrow> map (with_patience_event p) evs = evs"
  by (induction evs) (auto elim: is_train_event.elims)

lemma epoch_body_patience:
  "epoch_body c dn dc e (s\<lparr>pat_track := p\<rparr>) = with_patience p (epoch_body c dn dc e s)"
proof (cases "trainEpoch c dn dc e (objects s)")
  case (Inl err)
  then show ?thesis by (simp add: epoch_body_def with_patience_def)
next
  case (Inr r)
  obtain w tevs where r: "r = (w, tevs)" by (cases r)
  obtain sens acc where v: "valEpoch c (net w) = (sens, acc)" by (cases "valEpoch c (net w)")
  have t: "trainEpoch c dn dc e (objects s) = Inr (w, tevs)" using Inr r by simp
  then have t': "trainEpoch c dn dc e (objects (s\<lparr>pat_track := p\<rparr>)) = Inr (w, tevs)" by simp
  have m: "map (with_patience_event p) tevs = tevs"
    using trainEpoch_events[OF t] by (rule with_patience_train_events)
  show ?thesis
    by (simp add: epoch_body_Inr[OF t v] epoch_body_Inr[OF t' v] with_patience_def m)
qed

lemma train_loop_patience:
  "train_loop c dn dc es (s\<lparr>pat_track := p\<rparr>) = with_patience p (train_loop c dn dc es s)"
proof (induction es arbitrary: s)
  case Nil
  then show ?case by (simp add: with_patience_def)
next
  case (Cons e es)
  show ?case
  proof (cases "epoch_body c dn dc e s")
    case (Inl err)
    then show ?thesis by (simp add: epoch_body_patience with_patience_def)
  next
    case (Inr r)
    obtain s1 evs1 where r: "r = (s1, evs1)" by (cases r)
    show ?thesis
      using Inr r Cons.IH[of s1]
      by (simp add: epoch_body_patience with_patience_def split: sum.splits prod.splits)
  qed
qed

lemma with_patience_saved:
  "list_all (\<lambda>ck. ck_valtrack ck = p) (saved_checkpoints (map (with_patience_event p) evs))"
  by (induction evs rule: saved_checkpoints.induct) auto

lemma with_patience_printed:
  "list_all (\<lambda>q. q = p) (printed_patience (map (with_patience_event p) evs))"
  by (induction evs rule: printed_patience.induct) auto

lemma train_loop_patience_fields:
  assumes "train_loop c dn dc es s = Inr (s', evs)"
  shows "pat_track s' = pat_track s
       \<and> list_all (\<lambda>ck. ck_valtrack ck = pat_track s) (saved_checkpoints evs)
       \<and> list_all (\<lambda>q. q = pat_track s) (printed_patience evs)"
proof -
  have "train_loop c dn dc es (s\<lparr>pat_track := pat_track s\<rparr>)
          = with_patience (pat_track s) (train_loop c dn dc es s)"
    by (rule train_loop_patience)
  with assms have "Inr (s', evs)
      = Inr (s'\<lparr>pat_track := pat_track s\<rparr>, map (with_patience_event (pat_track s)) evs)"
    by (simp add: with_patience_def)
  then have s: "s' = s'\<lparr>pat_track := pat_track s\<rparr>"
    and e: "evs = map (with_patience_event (pat_track s)) evs" by simp_all
  have 1: "pat_track s' = pat_track s" by (subst s) simp
  have 2: "list_all (\<lambda>ck. ck_valtrack ck = pat_track s) (saved_checkpoints evs)"
    by (subst e) (rule with_patience_saved)
  have 3: "list_all (\<lambda>q. q = pat_track s) (printed_patience evs)"
    by (subst e) (rule with_patience_printed)
  from 1 2 3 show ?thesis by simp
qed

lemma train_model_InrD:
  assumes "train_model c a g = Inr (s, evs)"
  shows "\<exists>dn dc s0 evs'. pat_track s0 = 0
           \<and> train_loop c dn dc (py_range (epochs a)) s0 = Inr (s, evs')
           \<and> evs = [PrintModelSelected (model a), PrintStartTraining] @ evs'"
proof -
  from assms obtain m0 where m0: "select_model c a = Some m0"
    by (auto simp: train_model_def split: option.splits)
  obtain b m opt where r: "resume c m0 (Adam c m0 (lr a)) = (b, m, opt)"
    by (cases "resume c m0 (Adam c m0 (lr a))")
  from assms m0 r obtain dn dc where d: "calculateDataLoaderTrain c a = Inr (dn, dc)"
    by (auto simp: train_model_def Let_def split: sum.splits)
  let ?s0 = "\<lparr>objects = \<lparr>net = m, optim = ReduceLROnPlateau c opt (factor a) (patience a),
                            rng = g\<rparr>,
              best_sensit = b, pat_track = 0\<rparr>"
  from assms m0 r d obtain evs' where
    "train_loop c dn dc (py_range (epochs a)) ?s0 = Inr (s, evs')"
    "evs = [PrintModelSelected (model a), PrintStartTraining] @ evs'"
    by (auto simp: train_model_def Let_def split: sum.splits)
  moreover have "pat_track ?s0 = 0" by simp
  ultimately show ?thesis by blast
qed

text \<open>
  C10. In a run of \<open>train_model\<close> the patience counter \<open>pat_track\<close> ends with its
  initial value 0, every summary line prints 0 for it, and every checkpoint saved holds
  0 under \<^verbatim>\<open>valtrack\<close>. It is an input to no decision: the loop started with any value
  \<open>p\<close> of the counter behaves as the loop started with any other, except that the
  saved and printed patience fields read \<open>p\<close>.
\<close>

theorem patience_counter_inert:
  assumes "train_model c a g = Inr (s, evs)"
  shows "pat_track s = 0
       \<and> list_all (\<lambda>ck. ck_valtrack ck = 0) (saved_checkpoints evs)
       \<and> list_all (\<lambda>q. q = 0) (printed_patience evs)
       \<and> (\<forall>p dn dc es s0.
            train_loop c dn dc es (s0\<lparr>pat_track := p\<rparr>)
              = with_patience p (train_loop c dn dc es s0))"
proof -
  from train_model_InrD[OF assms] obtain dn dc s0 evs' where
    p: "pat_track s0 = 0" and
    l: "train_loop c dn dc (py_range (epochs a)) s0 = Inr (s, evs')" and
    e: "evs = [PrintModelSelected (model a), PrintStartTraining] @ evs'" by blast
  from train_loop_patience_fields[OF l] p e
  show ?thesis by (simp add: train_loop_patience)
qed

theorem patience_counter_inert_witness:
  "\<exists>s evs. train_model env0 args0 0 = Inr (s, evs)
      \<and> pat_track s = 0
      \<and> list_all (\<lambda>ck. ck_valtrack ck = 0) (saved_checkpoints evs)
      \<and> list_all (\<lambda>q. q = 0) (printed_patience evs)"
proof -
  from train_model0 obtain s evs where h: "train_model env0 args0 0 = Inr (s, evs)"
    by (rule succeededE)
  from patience_counter_inert[OF h] h show ?thesis by blast
qed


section \<open>The order of operations\<close>

lemma epoch_body_trace:
  assumes "epoch_body c dn dc e s = Inr (s', evs)"
  shows "epoch_trace e evs"
proof -
  from epoch_body_InrD[OF assms] obtain w tevs sens acc where
    h: "trainEpoch c dn dc e (objects s) = Inr (w, tevs)" "valEpoch c (net w) = (sens, acc)"
    by blast
  have tr: "list_all is_train_event tevs" by (rule trainEpoch_events[OF h(1)])
  let ?q = "acc \<ge> 0.80 \<and> sens > best_sensit s"
  let ?sv = "if ?q then [PrintBest,
                  SaveModel \<lparr>ck_epoch = e + 1, ck_state_dict = net w, ck_best_sensit = sens,
                             ck_optimizer = scheduler_step c (optim w) acc,
                             ck_valtrack = pat_track s, ck_curr_val = acc\<rparr>] else []"
  have "evs = tevs @ [ValEpoch sens acc, SchedulerStep acc] @ ?sv
              @ [PrintValidation (if ?q then sens else best_sensit s) acc (pat_track s),
                 Plot ''Sensitivity'' ''test'' ''sensitivity covid'' e sens,
                 Plot ''Accuracy'' ''test'' ''Accuracy'' e acc]"
    using assms by (simp add: epoch_body_Inr[OF h])
  moreover have "?sv = [] \<or> (\<exists>ck. ?sv = [PrintBest, SaveModel ck])" by simp
  ultimately show ?thesis unfolding epoch_trace_def using tr by blast
qed

lemma train_loop_trace:
  "train_loop c dn dc es s = Inr (s', evs) \<Longrightarrow>
     \<exists>ts. evs = concat ts \<and> list_all2 epoch_trace es ts"
proof (induction es arbitrary: s s' evs)
  case Nil
  then show ?case by simp
next
  case (Cons e es)
  from Cons.prems obtain s1 evs1 evs2 where
    1: "epoch_body c dn dc e s = Inr (s1, evs1)" and
    2: "train_loop c dn dc es s1 = Inr (s', evs2)" and
    3: "evs = evs1 @ evs2"
    by (auto split: sum.splits prod.splits)
  from Cons.IH[OF 2] obtain ts where ts: "evs2 = concat ts" "list_all2 epoch_trace es ts"
    by blast
  have "evs = concat (evs1 # ts) \<and> list_all2 epoch_trace (e # es) (evs1 # ts)"
    using 3 ts epoch_body_trace[OF 1] by simp
  then show ?case by blast
qed

text \<open>
  C6. The events of a run of \<open>train_model\<close> that returns are the two start-up lines
  followed by one block per epoch, for exactly the configured number of epochs, in the
  order of the epochs. Each block is: the events of the training epoch, then the
  validation pass, then the scheduler step on the accuracy that validation returned, then
  the checkpoint or nothing, then the summary line and the two validation plots. In each
  iteration the validation runs on the model as the training epoch left it, and the
  scheduler is stepped on the optimizer as training left it.
\<close>

theorem epochs_in_strict_sequence:
  assumes "train_model c a g = Inr (s, evs)"
  shows "(\<exists>ts. evs = [PrintModelSelected (model a), PrintStartTraining] @ concat ts
             \<and> length ts = nat (epochs a)
             \<and> list_all2 epoch_trace (py_range (epochs a)) ts)
       \<and> (\<forall>dn dc e s1 s2 evs'. epoch_body c dn dc e s1 = Inr (s2, evs') \<longrightarrow>
             (\<exists>w tevs sens acc rest.
                 trainEpoch c dn dc e (objects s1) = Inr (w, tevs)
               \<and> valEpoch c (net w) = (sens, acc)
               \<and> objects s2 = w\<lparr>optim := scheduler_step c (optim w) acc\<rparr>
               \<and> evs' = tevs @ ValEpoch sens acc # SchedulerStep acc # rest))"
proof -
  from train_model_InrD[OF assms] obtain dn dc s0 evs' where
    l: "train_loop c dn dc (py_range (epochs a)) s0 = Inr (s, evs')" and
    e: "evs = [PrintModelSelected (model a), PrintStartTraining] @ evs'" by blast
  from train_loop_trace[OF l] obtain ts where
    ts: "evs' = concat ts" "list_all2 epoch_trace (py_range (epochs a)) ts" by blast
  from ts(2) have "length ts = nat (epochs a)"
    by (simp add: list_all2_lengthD[symmetric] py_range_def)
  with e ts have 1: "\<exists>ts. evs = [PrintModelSelected (model a), PrintStartTraining] @ concat ts
             \<and> length ts = nat (epochs a)
             \<and> list_all2 epoch_trace (py_range (epochs a)) ts" by blast
  have 2: "\<exists>w tevs sens acc rest.
                 trainEpoch c dn dc e (objects s1) = Inr (w, tevs)
               \<and> valEpoch c (net w) = (sens, acc)
               \<and> objects s2 = w\<lparr>optim := scheduler_step c (optim w) acc\<rparr>
               \<and> evs' = tevs @ ValEpoch sens acc # SchedulerStep acc # rest"
    if b: "epoch_body c dn dc e s1 = Inr (s2, evs')" for dn dc e s1 s2 evs'
  proof -
    from epoch_body_InrD[OF b] obtain w tevs sens acc where
      h: "trainEpoch c dn dc e (objects s1) = Inr (w, tevs)" "valEpoch c (net w) = (sens, acc)"
      by blast
    from b have "objects s2 = w\<lparr>optim := scheduler_step c (optim w) acc\<rparr>
               \<and> (\<exists>rest. evs' = tevs @ ValEpoch sens acc # SchedulerStep acc # rest)"
      by (auto simp: epoch_body_Inr[OF h])
    with h show ?thesis by blast
  qed
  from 1 2 show ?thesis by blast
qed

theorem epochs_in_strict_sequence_witness:
  "\<exists>s evs ts. train_model env0 args0 0 = Inr (s, evs)
      \<and> evs = [PrintModelSelected ''covidnet'', PrintStartTraining] @ concat ts
      \<and> length ts = 2
      \<and> list_all2 epoch_trace [0, 1] ts"
proof -
  from train_model0 obtain s evs where h: "train_model env0 args0 0 = Inr (s, evs)"
    by (rule succeededE)
  have r: "py_range (epochs args0) = [0, 1]" by code_simp
  from epochs_in_strict_sequence[OF h] h r show ?thesis by (auto simp: args0_def)
qed


section \<open>Batches\<close>

lemma batches_Nil [simp]: "batches n [] = []"
  by (simp add: batches.simps)

lemma batches_0 [simp]: "batches 0 xs = []"
  by (simp add: batches.simps)

lemma batches_Cons:
  "0 < n \<Longrightarrow> xs \<noteq> [] \<Longrightarrow> batches n xs = take n xs # batches n (drop n xs)"
  by (subst batches.simps) simp

lemma batches_eq_ConsD:
  assumes "batches n xs = b # rest"
  shows "0 < n \<and> xs \<noteq> [] \<and> b = take n xs \<and> rest = batches n (drop n xs)"
proof -
  have "0 < n \<and> xs \<noteq> []" using assms by (cases "n = 0 \<or> xs = []") auto
  with assms show ?thesis by (simp add: batches_Cons)
qed

lemma concat_batches: "0 < n \<Longrightarrow> concat (batches n xs) = xs"
proof (induction n xs rule: batches.induct)
  case (1 n xs)
  show ?case
  proof (cases "xs = []")
    case True
    then show ?thesis by simp
  next
    case False
    with 1 show ?thesis by (simp add: batches_Cons)
  qed
qed

lemma batches_length_bounds:
  "b \<in> set (batches n xs) \<Longrightarrow> 0 < length b \<and> length b \<le> n"
proof (induction n xs rule: batches.induct)
  case (1 n xs)
  show ?case
  proof (cases "n = 0 \<or> xs = []")
    case True
    with 1(2) show ?thesis by auto
  next
    case False
    then have c: "batches n xs = take n xs # batches n (drop n xs)" by (simp add: batches_Cons)
    from 1(2) c have "b = take n xs \<or> b \<in> set (batches n (drop n xs))" by simp
    then show ?thesis
    proof
      assume "b = take n xs"
      with False show ?thesis by simp
    next
      assume "b \<in> set (batches n (drop n xs))"
      with 1(1) False show ?thesis by simp
    qed
  qed
qed

lemma batches_full_before_last:
  "Suc j < length (batches n xs) \<Longrightarrow> length (batches n xs ! j) = n"
proof (induction n xs arbitrary: j rule: batches.induct)
  case (1 n xs)
  show ?case
  proof (cases "n = 0 \<or> xs = []")
    case True
    with 1(2) show ?thesis by auto
  next
    case False
    then have c: "batches n xs = take n xs # batches n (drop n xs)" by (simp add: batches_Cons)
    show ?thesis
    proof (cases j)
      case 0
      with 1(2) c have "batches n (drop n xs) \<noteq> []" by auto
      then have "drop n xs \<noteq> []" by auto
      then have "n < length xs" by simp
      with 0 c show ?thesis by simp
    next
      case (Suc k)
      with 1(2) c have "Suc k < length (batches n (drop n xs))" by simp
      with 1(1) False have "length (batches n (drop n xs) ! k) = n" by simp
      with Suc c show ?thesis by simp
    qed
  qed
qed

lemma batches_last_length:
  "batches n xs \<noteq> [] \<Longrightarrow>
     length (last (batches n xs)) = (if length xs mod n = 0 then n else length xs mod n)"
proof (induction n xs rule: batches.induct)
  case (1 n xs)
  from 1(2) have ne: "\<not> (n = 0 \<or> xs = [])" by (cases "n = 0 \<or> xs = []") auto
  then have c: "batches n xs = take n xs # batches n (drop n xs)" by (simp add: batches_Cons)
  show ?case
  proof (cases "batches n (drop n xs) = []")
    case True
    then have "drop n xs = []" using ne by (cases "drop n xs = []") (auto simp: batches_Cons)
    then have le: "length xs \<le> n" by simp
    have pos: "0 < length xs" using ne by simp
    show ?thesis
    proof (cases "length xs = n")
      case True
      with c \<open>batches n (drop n xs) = []\<close> show ?thesis by simp
    next
      case False
      with le have "length xs < n" by simp
      with c \<open>batches n (drop n xs) = []\<close> pos show ?thesis by simp
    qed
  next
    case False
    then have d: "drop n xs \<noteq> []" by auto
    then have lt: "n \<le> length xs" by simp
    have m: "(length xs - n) mod n = length xs mod n"
      using le_mod_geq[OF lt] by simp
    from 1(1)[OF ne False] c False m show ?thesis by simp
  qed
qed

lemma batches_count: "0 < n \<Longrightarrow> length (batches n xs) = (length xs + n - 1) div n"
proof (induction n xs rule: batches.induct)
  case (1 n xs)
  show ?case
  proof (cases "xs = []")
    case True
    with 1(2) show ?thesis by simp
  next
    case False
    with 1(2) have c: "batches n xs = take n xs # batches n (drop n xs)"
      by (simp add: batches_Cons)
    from 1(1) False 1(2) have ih: "length (batches n (drop n xs)) = (length xs - n + n - 1) div n"
      by simp
    have pos: "0 < length xs" using False by simp
    have "n \<le> length xs + n - 1" using pos by arith
    from le_div_geq[OF 1(2) this]
    have s: "(length xs + n - 1) div n = Suc ((length xs - 1) div n)" by simp
    show ?thesis
    proof (cases "n \<le> length xs")
      case True
      then have "length xs - n + n - 1 = length xs - 1" by simp
      with c ih s show ?thesis by simp
    next
      case False
      then have lt: "length xs < n" by simp
      then have "drop n xs = []" by simp
      moreover have "(length xs - 1) div n = 0" using lt by simp
      ultimately show ?thesis using c s by simp
    qed
  qed
qed


section \<open>The batches of a training epoch\<close>

lemma train_batch_Inr:
  assumes "train_batch c dc e n i b (w, l, a) = Inr ((w', l', a'), evs)"
  shows "\<exists>b_c rest x0 xs y.
           batches (nat (batch_size dc)) (shuffle c (rng w) (dataset dc)) = b_c # rest
         \<and> rng w' = Suc (rng w)
         \<and> map fst b @ map fst b_c = x0 # xs
         \<and> evs = [ModelForward (x0 # xs) y, OptimizerStep, PrintTrain e i n l' a']
         \<and> am_count l' = am_count l + real (length x0)
         \<and> am_count a' = am_count a + real (length x0)"
  using assms
  by (auto simp: train_batch_def iter_dl_def py_next_def collate_def update_def Let_def
           split: prod.splits sum.splits list.splits if_splits)

lemma train_batches_forward:
  assumes "train_batches c dc e n ps (w, l, a) = Inr ((w', l', a'), evs)"
  shows "rng w' = rng w + length ps
       \<and> length (forward_batches evs) = length ps
       \<and> (\<forall>j<length ps. \<exists>b_c rest.
             batches (nat (batch_size dc)) (shuffle c (rng w + j) (dataset dc)) = b_c # rest
           \<and> forward_batches evs ! j = map fst (snd (ps ! j)) @ map fst b_c)"
  using assms
proof (induction ps arbitrary: w l a evs)
  case Nil
  then show ?case by simp
next
  case (Cons p ps)
  obtain i b where p: "p = (i, b)" by (cases p)
  from Cons.prems obtain st1 evs1 evs2 where
    1: "train_batch c dc e n i b (w, l, a) = Inr (st1, evs1)" and
    2: "train_batches c dc e n ps st1 = Inr ((w', l', a'), evs2)" and
    3: "evs = evs1 @ evs2"
    by (auto simp: p split: sum.splits prod.splits)
  obtain w1 l1 a1 where st1: "st1 = (w1, l1, a1)" by (cases st1)
  from train_batch_Inr[OF 1[unfolded st1]] obtain b_c rest x0 xs y where
    h: "batches (nat (batch_size dc)) (shuffle c (rng w) (dataset dc)) = b_c # rest"
       "rng w1 = Suc (rng w)"
       "map fst b @ map fst b_c = x0 # xs"
       "evs1 = [ModelForward (x0 # xs) y, OptimizerStep, PrintTrain e i n l1 a1]"
    by blast
  note ih = Cons.IH[OF 2[unfolded st1]]
  have f: "forward_batches evs = (map fst b @ map fst b_c) # forward_batches evs2"
    using 3 h by simp
  have r: "rng w' = rng w + length (p # ps)" using ih h by simp
  have len: "length (forward_batches evs) = length (p # ps)" using ih f by simp
  have nth: "\<exists>b_c rest.
             batches (nat (batch_size dc)) (shuffle c (rng w + j) (dataset dc)) = b_c # rest
           \<and> forward_batches evs ! j = map fst (snd ((p # ps) ! j)) @ map fst b_c"
    if j: "j < length (p # ps)" for j
  proof (cases j)
    case 0
    with h f p show ?thesis by simp
  next
    case (Suc k)
    with j have "k < length ps" by simp
    with ih obtain b_c' rest' where
      "batches (nat (batch_size dc)) (shuffle c (rng w1 + k) (dataset dc)) = b_c' # rest'"
      "forward_batches evs2 ! k = map fst (snd (ps ! k)) @ map fst b_c'" by blast
    with Suc h f show ?thesis by simp
  qed
  from r len nth show ?case by blast
qed

lemma trainEpoch_InrD:
  assumes "trainEpoch c dn dc e w = Inr (w', evs)"
  shows "\<exists>l a tevs.
           train_batches c dc e (length (fst (iter_dl c dn (rng w))))
             (enumerate 0 (fst (iter_dl c dn (rng w))))
             (w\<lparr>rng := Suc (rng w)\<rparr>, new_AverageMeter, new_AverageMeter)
             = Inr ((w', l, a), tevs)
         \<and> evs = tevs @ [Plot ''loss'' ''train'' ''Cross Entropy Loss'' e (am_avg l),
                         Plot ''Acc'' ''train'' ''Accuracy'' e (am_avg a)]"
  using assms
  by (auto simp: trainEpoch_def iter_dl_def split: sum.splits prod.splits)

lemma forward_batches_append:
  "forward_batches (xs @ ys) = forward_batches xs @ forward_batches ys"
  by (induction xs rule: forward_batches.induct) auto

lemma trainEpoch_forward:
  assumes "trainEpoch c dn dc e w = Inr (w', evs)"
  shows "length (forward_batches evs) = length (fst (iter_dl c dn (rng w)))
       \<and> rng w' = Suc (rng w) + length (forward_batches evs)
       \<and> (\<forall>j<length (forward_batches evs). \<exists>b_c rest.
              fst (iter_dl c dc (Suc (rng w) + j)) = b_c # rest
            \<and> forward_batches evs ! j
                = map fst (fst (iter_dl c dn (rng w)) ! j) @ map fst b_c
            \<and> b_c = take (nat (batch_size dc)) (shuffle c (Suc (rng w) + j) (dataset dc))
            \<and> concat (b_c # rest) = shuffle c (Suc (rng w) + j) (dataset dc))"
proof -
  let ?it = "fst (iter_dl c dn (rng w))"
  from trainEpoch_InrD[OF assms] obtain l a tevs where
    t: "train_batches c dc e (length ?it) (enumerate 0 ?it)
          (w\<lparr>rng := Suc (rng w)\<rparr>, new_AverageMeter, new_AverageMeter) = Inr ((w', l, a), tevs)"
    and e: "evs = tevs @ [Plot ''loss'' ''train'' ''Cross Entropy Loss'' e (am_avg l),
                         Plot ''Acc'' ''train'' ''Accuracy'' e (am_avg a)]"
    by blast
  have fe: "forward_batches evs = forward_batches tevs"
    by (simp add: e forward_batches_append)
  note tb = train_batches_forward[OF t]
  have len: "length (forward_batches evs) = length ?it" using tb fe by simp
  have r: "rng w' = Suc (rng w) + length (forward_batches evs)" using tb fe by simp
  have nth: "\<exists>b_c rest.
              fst (iter_dl c dc (Suc (rng w) + j)) = b_c # rest
            \<and> forward_batches evs ! j = map fst (?it ! j) @ map fst b_c
            \<and> b_c = take (nat (batch_size dc)) (shuffle c (Suc (rng w) + j) (dataset dc))
            \<and> concat (b_c # rest) = shuffle c (Suc (rng w) + j) (dataset dc)"
    if j: "j < length (forward_batches evs)" for j
  proof -
    from j len have j': "j < length (enumerate 0 ?it)" by simp
    with tb obtain b_c rest where
      b: "batches (nat (batch_size dc)) (shuffle c (Suc (rng w) + j) (dataset dc)) = b_c # rest"
      and f: "forward_batches tevs ! j = map fst (snd (enumerate 0 ?it ! j)) @ map fst b_c"
      by fastforce
    from batches_eq_ConsD[OF b] have
      pos: "0 < nat (batch_size dc)" and
      tk: "b_c = take (nat (batch_size dc)) (shuffle c (Suc (rng w) + j) (dataset dc))"
      by simp_all
    have cc: "concat (b_c # rest) = shuffle c (Suc (rng w) + j) (dataset dc)"
      using concat_batches[OF pos, of "shuffle c (Suc (rng w) + j) (dataset dc)"] b by simp
    have sn: "snd (enumerate 0 ?it ! j) = ?it ! j" using j len by (simp add: nth_enumerate_eq)
    from b f tk cc sn fe show ?thesis by (simp add: iter_dl_def)
  qed
  from len r nth show ?thesis by blast
qed

lemma shuffle_permutes_length:
  "shuffle_permutes c \<Longrightarrow> length (shuffle c g xs) = length xs"
  by (auto simp: shuffle_permutes_def dest: mset_eq_length)

lemma mset_rotate1: "mset (rotate1 xs) = mset xs"
  by (cases xs) simp_all

lemma mset_rotate: "mset (rotate n xs) = mset xs"
  by (induction n) (simp_all add: mset_rotate1)

lemma shuffle_permutes_env0: "shuffle_permutes env0"
  by (simp add: shuffle_permutes_def env0_def mset_rotate)

lemma majority_batches0: "length (fst (iter_dl env0 dl_non_covid0 0)) = 2"
  by code_simp

text \<open>
  C9. In every step of a training epoch the minority part of the combined batch is the
  first batch of an iterator created in that step: step \<open>j\<close> draws the permutation
  number \<open>rng + 1 + j\<close> of the whole minority pool, the batches of the new iterator
  together are that permutation, and the part used is its first \<open>batch_size\<close> items,
  whatever the position \<open>j\<close> in the majority loader. One permutation is drawn per step.
\<close>

theorem minority_batch_from_fresh_iterator:
  assumes "trainEpoch c dn dc e w = Inr (w', evs)" and "shuffle_permutes c"
  shows "length (forward_batches evs) = length (fst (iter_dl c dn (rng w)))
       \<and> rng w' = Suc (rng w) + length (forward_batches evs)
       \<and> (\<forall>j<length (forward_batches evs). \<exists>b_c rest.
              fst (iter_dl c dc (Suc (rng w) + j)) = b_c # rest
            \<and> forward_batches evs ! j
                = map fst (fst (iter_dl c dn (rng w)) ! j) @ map fst b_c
            \<and> b_c = take (nat (batch_size dc)) (shuffle c (Suc (rng w) + j) (dataset dc))
            \<and> concat (b_c # rest) = shuffle c (Suc (rng w) + j) (dataset dc)
            \<and> mset (concat (b_c # rest)) = mset (dataset dc))"
proof -
  note f = trainEpoch_forward[OF assms(1)]
  have "\<exists>b_c rest.
              fst (iter_dl c dc (Suc (rng w) + j)) = b_c # rest
            \<and> forward_batches evs ! j
                = map fst (fst (iter_dl c dn (rng w)) ! j) @ map fst b_c
            \<and> b_c = take (nat (batch_size dc)) (shuffle c (Suc (rng w) + j) (dataset dc))
            \<and> concat (b_c # rest) = shuffle c (Suc (rng w) + j) (dataset dc)
            \<and> mset (concat (b_c # rest)) = mset (dataset dc)"
    if "j < length (forward_batches evs)" for j
  proof -
    from f that obtain b_c rest where
      h: "fst (iter_dl c dc (Suc (rng w) + j)) = b_c # rest"
         "forward_batches evs ! j = map fst (fst (iter_dl c dn (rng w)) ! j) @ map fst b_c"
         "b_c = take (nat (batch_size dc)) (shuffle c (Suc (rng w) + j) (dataset dc))"
         "concat (b_c # rest) = shuffle c (Suc (rng w) + j) (dataset dc)"
      by blast
    from h(4) assms(2) have "mset (concat (b_c # rest)) = mset (dataset dc)"
      by (simp only: shuffle_permutes_def)
    with h show ?thesis by blast
  qed
  with f show ?thesis by blast
qed

theorem minority_batch_from_fresh_iterator_witness:
  "\<exists>w' evs b_c rest.
      trainEpoch env0 dl_non_covid0 dl_covid0 0 (objects locals0) = Inr (w', evs)
    \<and> length (forward_batches evs) = 2
    \<and> fst (iter_dl env0 dl_covid0 2) = b_c # rest
    \<and> forward_batches evs ! 1 = map fst (fst (iter_dl env0 dl_non_covid0 0) ! 1) @ map fst b_c
    \<and> concat (b_c # rest) = shuffle env0 2 (dataset dl_covid0)"
proof -
  from result_stateD[OF trainEpoch0] obtain evs where
    h: "trainEpoch env0 dl_non_covid0 dl_covid0 0 (objects locals0)
           = Inr (\<lparr>net = 2, optim = 2, rng = 3\<rparr>, evs)" by blast
  have g: "rng (objects locals0) = 0" by (simp add: locals0_def)
  note t = minority_batch_from_fresh_iterator[OF h shuffle_permutes_env0, unfolded g]
  from t majority_batches0 have len: "length (forward_batches evs) = 2" by simp
  from t len have "\<exists>b_c rest.
              fst (iter_dl env0 dl_covid0 (Suc 0 + 1)) = b_c # rest
            \<and> forward_batches evs ! 1
                = map fst (fst (iter_dl env0 dl_non_covid0 0) ! 1) @ map fst b_c
            \<and> b_c = take (nat (batch_size dl_covid0)) (shuffle env0 (Suc 0 + 1) (dataset dl_covid0))
            \<and> concat (b_c # rest) = shuffle env0 (Suc 0 + 1) (dataset dl_covid0)
            \<and> mset (concat (b_c # rest)) = mset (dataset dl_covid0)"
    by simp
  then obtain b_c rest where
    "fst (iter_dl env0 dl_covid0 2) = b_c # rest"
    "forward_batches evs ! 1 = map fst (fst (iter_dl env0 dl_non_covid0 0) ! 1) @ map fst b_c"
    "concat (b_c # rest) = shuffle env0 2 (dataset dl_covid0)"
    by (auto simp: numeral_2_eq_2)
  with h len show ?thesis by blast
qed


section \<open>The sampler\<close>

lemma calculateDataLoaderTrain_InrD:
  assumes "calculateDataLoaderTrain c a = Inr (dn, dc)"
  shows "dataset dn = train_non_covid c \<and> batch_size dn = batch a - covid_size a
       \<and> 0 < batch_size dn
       \<and> dataset dc = train_covid c \<and> batch_size dc = covid_size a"
  using assms
  by (auto simp: calculateDataLoaderTrain_def new_DataLoader_def split: if_splits)

lemma covid_size_pos: "1 \<le> covid_size a"
  by (simp add: covid_size_def)


lemma loaders0: "calculateDataLoaderTrain env0 args0 = Inr (dl_non_covid0, dl_covid0)"
  by code_simp




text \<open>
  C4, as the spec states it: every combined batch of an epoch, the last one included,
  holds exactly \<open>B\<close> samples. With ten majority samples, \<open>B = 10\<close> and \<open>p = 0.3\<close> the
  majority loader yields a batch of 7 and a last batch of 3, so the combined batches of
  each epoch hold 10 and 6 samples.
\<close>

theorem last_batch_smaller:
  "batch args0 = 10
   \<and> combined_sizes (result_events (train_model env0 args0 0)) = [10, 6, 10, 6]"
  by code_simp

text \<open>
  C4, amended: when the minority pool holds at least one minority batch, every combined
  batch of an epoch but the last holds exactly \<open>B\<close> samples; every combined batch
  holds more than the minority batch size and at most \<open>B\<close>; the last one holds the
  minority batch plus what is left of the majority pool, \<open>N mod m\<close> samples (or \<open>m\<close>
  when that is 0), for \<open>N\<close> majority samples and majority batch size \<open>m\<close>; and the
  epoch has \<open>\<lceil>N / m\<rceil>\<close> combined batches.
\<close>

theorem combined_batch_sizes:
  assumes loaders: "calculateDataLoaderTrain c a = Inr (dn, dc)"
    and run: "trainEpoch c dn dc e w = Inr (w', evs)"
    and shuffles: "shuffle_permutes c"
    and pool: "covid_size a \<le> int (length (train_covid c))"
  shows "(\<forall>j. Suc j < length (combined_sizes evs) \<longrightarrow> int (combined_sizes evs ! j) = batch a)
       \<and> (\<forall>j<length (combined_sizes evs).
             covid_size a < int (combined_sizes evs ! j)
           \<and> int (combined_sizes evs ! j) \<le> batch a)
       \<and> (combined_sizes evs \<noteq> [] \<longrightarrow>
             int (last (combined_sizes evs))
               = covid_size a
                 + (let m = batch a - covid_size a;
                        r = int (length (train_non_covid c)) mod m
                    in if r = 0 then m else r))
       \<and> int (length (combined_sizes evs))
           = (int (length (train_non_covid c)) + (batch a - covid_size a) - 1)
               div (batch a - covid_size a)"
proof -
  have perm: "length (shuffle c g xs) = length xs" for g xs
    using shuffles by (rule shuffle_permutes_length)
  note d = calculateDataLoaderTrain_InrD[OF loaders]
  define m where "m = nat (batch a - covid_size a)"
  define k where "k = nat (covid_size a)"
  define N where "N = length (train_non_covid c)"
  have m: "int m = batch a - covid_size a" "0 < m" using d by (simp_all add: m_def)
  have k: "int k = covid_size a" "0 < k" using covid_size_pos[of a] by (simp_all add: k_def)
  have B: "batch a = int (m + k)" using m k by simp
  let ?it = "batches m (shuffle c (rng w) (train_non_covid c))"
  have it: "fst (iter_dl c dn (rng w)) = ?it" using d by (simp add: iter_dl_def m_def)
  note f = trainEpoch_forward[OF run]
  have len: "length (combined_sizes evs) = length ?it"
    using f it by (simp add: combined_sizes_def)
  have size: "combined_sizes evs ! j = length (?it ! j) + k"
    if j: "j < length (combined_sizes evs)" for j
  proof -
    from j have "j < length (forward_batches evs)" by (simp add: combined_sizes_def)
    with f obtain b_c rest where
      1: "forward_batches evs ! j = map fst (fst (iter_dl c dn (rng w)) ! j) @ map fst b_c"
      and 2: "b_c = take (nat (batch_size dc)) (shuffle c (Suc (rng w) + j) (dataset dc))"
      by blast
    have "length b_c = k" using 2 d perm pool by (simp add: k_def)
    with 1 it j show ?thesis by (simp add: combined_sizes_def)
  qed
  have full: "int (combined_sizes evs ! j) = batch a"
    if j: "Suc j < length (combined_sizes evs)" for j
  proof -
    from j len have "length (?it ! j) = m" by (simp add: batches_full_before_last)
    moreover from j have "j < length (combined_sizes evs)" by simp
    ultimately show ?thesis using size B by simp
  qed
  have bounds: "covid_size a < int (combined_sizes evs ! j)
              \<and> int (combined_sizes evs ! j) \<le> batch a"
    if j: "j < length (combined_sizes evs)" for j
  proof -
    from j len have "?it ! j \<in> set ?it" by simp
    from batches_length_bounds[OF this] size[OF j] B k show ?thesis by simp
  qed
  have lastsz: "int (last (combined_sizes evs))
               = covid_size a
                 + (let m = batch a - covid_size a;
                        r = int (length (train_non_covid c)) mod m
                    in if r = 0 then m else r)"
    if ne: "combined_sizes evs \<noteq> []"
  proof -
    from ne len have ne': "?it \<noteq> []" by auto
    from ne have "last (combined_sizes evs)
        = combined_sizes evs ! (length (combined_sizes evs) - 1)" by (simp add: last_conv_nth)
    also have "\<dots> = length (?it ! (length ?it - 1)) + k"
    proof -
      have "length (combined_sizes evs) - 1 < length (combined_sizes evs)" using ne by simp
      from size[OF this] len show ?thesis by simp
    qed
    also have "?it ! (length ?it - 1) = last ?it" using ne' by (simp add: last_conv_nth)
    finally have "last (combined_sizes evs) = length (last ?it) + k" .
    moreover have "length (last ?it) = (if N mod m = 0 then m else N mod m)"
      using batches_last_length[OF ne'] perm by (simp add: N_def)
    ultimately have lastnat:
      "last (combined_sizes evs) = (if N mod m = 0 then m else N mod m) + k" by simp
    have r: "int N mod int m = int (N mod m)" by (simp add: zmod_int)
    have "int (last (combined_sizes evs))
            = int k + (if int N mod int m = 0 then int m else int N mod int m)"
      unfolding r using lastnat by simp
    moreover have "batch a - covid_size a = int m" "covid_size a = int k"
      using m k by simp_all
    ultimately show ?thesis by (simp only: Let_def N_def)
  qed
  have cnt: "int (length (combined_sizes evs))
           = (int (length (train_non_covid c)) + (batch a - covid_size a) - 1)
               div (batch a - covid_size a)"
  proof -
    have "length (combined_sizes evs) = (N + m - 1) div m"
      using len batches_count[OF m(2), of "shuffle c (rng w) (train_non_covid c)"] perm
      by (simp add: N_def)
    moreover have "int ((N + m - 1) div m) = (int N + int m - 1) div int m"
      using m(2) by (simp add: zdiv_int of_nat_diff)
    moreover have "batch a - covid_size a = int m" using m by simp
    ultimately show ?thesis by (simp only: N_def)
  qed
  from full bounds lastsz cnt show ?thesis by blast
qed

theorem combined_batch_sizes_witness:
  "\<exists>w' evs. trainEpoch env0 dl_non_covid0 dl_covid0 0 (objects locals0) = Inr (w', evs)
     \<and> int (length (combined_sizes evs)) = 2
     \<and> int (combined_sizes evs ! 0) = 10
     \<and> int (last (combined_sizes evs)) = 6"
proof -
  from result_stateD[OF trainEpoch0] obtain evs where
    h: "trainEpoch env0 dl_non_covid0 dl_covid0 0 (objects locals0)
           = Inr (\<lparr>net = 2, optim = 2, rng = 3\<rparr>, evs)" by blast
  have cs: "covid_size args0 = 3" by code_simp
  have n: "int (length (train_non_covid env0)) = 10" by (simp add: env0_def)
  have pool: "covid_size args0 \<le> int (length (train_covid env0))"
    by (simp add: cs env0_def)
  have b: "batch args0 = 10" by (simp add: args0_def)
  note t = combined_batch_sizes[OF loaders0 h shuffle_permutes_env0 pool, unfolded cs n b]
  from t have c: "int (length (combined_sizes evs)) = 2" by simp
  then have l: "length (combined_sizes evs) = 2" by simp
  from t l have f: "int (combined_sizes evs ! 0) = 10" by simp
  from l have ne: "combined_sizes evs \<noteq> []" by auto
  from t ne have "int (last (combined_sizes evs)) = 6" by (simp add: Let_def)
  with h c f show ?thesis by blast
qed


section \<open>The weight of the running averages\<close>

text \<open>
  C5. The spec weights both running averages by the number of samples in the combined
  batch. The code passes \<^verbatim>\<open>x_batch[0].size(0)\<close>, the first dimension of the first
  image. In the concrete run the combined batches hold 10 and 6 samples of
  three-channel images, and the meters have counted 3 after the first batch and 6 after
  the second.
\<close>

theorem meter_weight_is_channel_count:
  "combined_sizes (result_events
      (trainEpoch env0 dl_non_covid0 dl_covid0 0 (objects locals0))) = [10, 6]
   \<and> printed_counts (result_events
      (trainEpoch env0 dl_non_covid0 dl_covid0 0 (objects locals0))) = [(3, 3), (6, 6)]"
  by code_simp


section \<open>Model selection\<close>

text \<open>
  C7. The spec asks for an explicit "unknown model" error when the configured tag is
  neither \<^verbatim>\<open>covidnet\<close> nor \<^verbatim>\<open>resnet\<close>. For the tag \<^verbatim>\<open>vgg\<close> the code leaves the
  variable \<^verbatim>\<open>model\<close> unbound, prints the selection line and fails at
  \<^verbatim>\<open>model.to\<close> with \<^verbatim>\<open>UnboundLocalError\<close>.
\<close>

theorem unknown_model_unbound:
  "train_model env0 (args0\<lparr>model := ''vgg''\<rparr>) 0 = Inl UnboundLocalError"
  by (simp add: train_model_def select_model_def args0_def)

end
